theory Spec2Isabelle
  imports Complex_Main
begin

section \<open>Numbers and errors\<close>

text \<open>
  The scripts compute with Python and numpy floating-point numbers.  They are modelled
  as real numbers: rounding and overflow are not modelled.  The one non-finite value the
  claims depend on, the \<open>inf\<close> that numpy's float division returns for a zero divisor
  (with a warning, where Python's own floats would raise), is a value of \<open>np_float\<close>.
  Python exceptions are values of the type \<open>error\<close>, and a function that can raise
  returns \<open>error + 'a\<close>.
\<close>

datatype error = ValueError | OverflowError | IndexError | StopIteration | ZeroDivisionError

datatype np_float = Fin real | PInf

type_synonym coord = "real \<times> real"

text \<open>\<open>1.0 / d\<close> for a numpy float \<open>d\<close> that is not negative.\<close>

definition np_recip :: "real \<Rightarrow> np_float" where
  "np_recip d = (if d = 0 then PInf else Fin (1 / d))"

fun np_add :: "np_float \<Rightarrow> np_float \<Rightarrow> np_float" where
  "np_add (Fin a) (Fin b) = Fin (a + b)"
| "np_add _ _ = PInf"

text \<open>Python's \<open>sum\<close>: from \<open>0\<close>, left to right.\<close>

definition py_sum :: "np_float list \<Rightarrow> np_float" where
  "py_sum ws = foldl np_add (Fin 0) ws"

text \<open>Python's \<open>min\<close> and \<open>max\<close> of a sequence: \<open>ValueError\<close> on an empty one.\<close>

fun py_min :: "real list \<Rightarrow> error + real" where
  "py_min [] = Inl ValueError"
| "py_min (v # vs) = Inr (fold min vs v)"

fun py_max :: "real list \<Rightarrow> error + real" where
  "py_max [] = Inl ValueError"
| "py_max (v # vs) = Inr (fold max vs v)"

text \<open>Python's \<open>int\<close> of a float truncates towards zero.\<close>

definition py_int :: "real \<Rightarrow> int" where
  "py_int v = (if 0 \<le> v then \<lfloor>v\<rfloor> else \<lceil>v\<rceil>)"

text \<open>
  \<open>int(v / unit_size)\<close> for a numpy float \<open>v\<close>: a zero divisor gives \<open>nan\<close> (for
  \<open>0 / 0\<close>) or an infinity, which \<open>int\<close> refuses with \<open>ValueError\<close> and
  \<open>OverflowError\<close>.
\<close>

definition np_int_quot :: "real \<Rightarrow> real \<Rightarrow> error + int" where
  "np_int_quot v unit_size =
     (if unit_size = 0 then (if v = 0 then Inl ValueError else Inl OverflowError)
      else Inr (py_int (v / unit_size)))"

text \<open>Python's \<open>range(a, b)\<close>.\<close>

definition py_range :: "int \<Rightarrow> int \<Rightarrow> int list" where
  "py_range a b = [a..b - 1]"

text \<open>A \<open>for\<close> loop over a sequence whose body updates a state and may raise.\<close>

fun for_each :: "('a \<Rightarrow> 's \<Rightarrow> error + 's) \<Rightarrow> 'a list \<Rightarrow> 's \<Rightarrow> error + 's" where
  "for_each body [] s = Inr s"
| "for_each body (v # vs) s =
     (case body v s of Inl e \<Rightarrow> Inl e | Inr s' \<Rightarrow> for_each body vs s')"

section \<open>Geodesy: \<open>haversine\<close>\<close>

definition radians :: "real \<Rightarrow> real" where
  "radians v = v * pi / 180"

text \<open>\<open>np.arctan2 y x\<close>: the angle of the point \<open>(x, y)\<close>, in \<open>(-pi, pi]\<close>.\<close>

definition arctan2 :: "real \<Rightarrow> real \<Rightarrow> real" where
  "arctan2 y x =
     (if 0 < x then arctan (y / x)
      else if x < 0 then (if 0 \<le> y then arctan (y / x) + pi else arctan (y / x) - pi)
      else if 0 < y then pi / 2
      else if y < 0 then - (pi / 2)
      else 0)"

text \<open>
  The argument \<open>a\<close> of the two square roots in \<open>haversine\<close>.  It lies between \<open>0\<close>
  and \<open>1\<close> (lemma \<open>haversine_a_range\<close>), so that both roots are roots of numbers that
  are not negative.
\<close>

fun haversine_a :: "coord \<Rightarrow> coord \<Rightarrow> real" where
  "haversine_a (lat1, lon1) (lat2, lon2) =
     (let dlat = radians (lat2 - lat1);
          dlon = radians (lon2 - lon1)
      in (sin (dlat / 2))\<^sup>2 +
         cos (radians lat1) * cos (radians lat2) * (sin (dlon / 2))\<^sup>2)"

definition haversine :: "coord \<Rightarrow> coord \<Rightarrow> real" where
  "haversine coord1 coord2 =
     (let R = 6371;
          a = haversine_a coord1 coord2;
          c = 2 * arctan2 (sqrt a) (sqrt (1 - a));
          distance = R * c
      in distance)"

section \<open>Coverage objectives\<close>

text \<open>\<open>objective_function\<close> of \<open>optimal_point.py\<close>: the minimum-distance mode.\<close>

definition objective_function :: "coord \<Rightarrow> coord list \<Rightarrow> coord \<Rightarrow> real \<Rightarrow> error + real" where
  "objective_function x points center radius =
     (let distances = map (haversine x) points
      in if haversine x center > radius then Inr 0
         else (case py_min distances of Inl e \<Rightarrow> Inl e | Inr m \<Rightarrow> Inr (- m)))"

text \<open>
  \<open>objective_function\<close> of \<open>optimal_point_pure_radius_dx.py\<close>: the inverse-distance
  mode, with the distance to the bounding circle as one more repelling term.
\<close>

definition objective_function_dx :: "coord \<Rightarrow> coord list \<Rightarrow> coord \<Rightarrow> real \<Rightarrow> np_float" where
  "objective_function_dx x points center radius =
     (let distances = map (haversine x) points;
          distance_to_center = haversine x center
      in if distance_to_center > radius then Fin 1000000000
         else (let distance_to_boundary = \<bar>radius - distance_to_center\<bar>;
                   distances = distances @ [distance_to_boundary];
                   weighted_distances = map np_recip distances
               in py_sum weighted_distances))"



section \<open>Reading the point set\<close>

text \<open>
  \<open>read_coordinates_from_file\<close> of \<open>optimal_point.py\<close> (the same text is in
  \<open>optimal_point_pure_radius_dx.py\<close>).  The file is the list of its csv rows, and
  Python's \<open>float\<close> of a string is the parameter \<open>py_float\<close>.
\<close>

fun read_row :: "(string \<Rightarrow> real option) \<Rightarrow> string list \<Rightarrow> error + coord" where
  "read_row py_float [] = Inl IndexError"
| "read_row py_float [s0] =
     (case py_float s0 of None \<Rightarrow> Inl ValueError | Some _ \<Rightarrow> Inl IndexError)"
| "read_row py_float (s0 # s1 # _) =
     (case py_float s0 of None \<Rightarrow> Inl ValueError
      | Some lat \<Rightarrow> (case py_float s1 of None \<Rightarrow> Inl ValueError | Some lon \<Rightarrow> Inr (lat, lon)))"

fun read_rows :: "(string \<Rightarrow> real option) \<Rightarrow> string list list \<Rightarrow> coord list \<Rightarrow> error + coord list" where
  "read_rows py_float [] points = Inr points"
| "read_rows py_float (row # rows) points =
     (case read_row py_float row of Inl e \<Rightarrow> Inl e
      | Inr p \<Rightarrow> read_rows py_float rows (points @ [p]))"

definition read_coordinates_from_file ::
  "(string \<Rightarrow> real option) \<Rightarrow> string list list \<Rightarrow> error + coord list" where
  "read_coordinates_from_file py_float file =
     (case file of [] \<Rightarrow> Inl StopIteration
      | header # rows \<Rightarrow> read_rows py_float rows [])"

section \<open>The influence grid\<close>

text \<open>
  A numpy array of shape \<open>(nrows, ncols)\<close>: its cells are a function of the index pair.
  An index \<open>k\<close> along an axis of length \<open>n\<close> is in bounds for \<open>0 \<le> k < n\<close>; numpy also
  accepts \<open>-n \<le> k < 0\<close>, counting from the end, and raises \<open>IndexError\<close> otherwise.
\<close>

record grid =
  nrows :: int
  ncols :: int
  cells :: "int \<times> int \<Rightarrow> real"

definition zeros :: "int \<Rightarrow> int \<Rightarrow> grid" where
  "zeros h w = \<lparr>nrows = h, ncols = w, cells = (\<lambda>_. 0)\<rparr>"

definition np_zeros :: "int \<Rightarrow> int \<Rightarrow> error + grid" where
  "np_zeros h w = (if h < 0 \<or> w < 0 then Inl ValueError else Inr (zeros h w))"

definition np_index :: "int \<Rightarrow> int \<Rightarrow> error + int" where
  "np_index n k =
     (if 0 \<le> k \<and> k < n then Inr k
      else if - n \<le> k \<and> k < 0 then Inr (k + n)
      else Inl IndexError)"

text \<open>\<open>grid[r, c] += v\<close>\<close>

definition grid_add :: "grid \<Rightarrow> int \<Rightarrow> int \<Rightarrow> real \<Rightarrow> error + grid" where
  "grid_add g r c v =
     (case np_index (nrows g) r of Inl e \<Rightarrow> Inl e
      | Inr r' \<Rightarrow>
        (case np_index (ncols g) c of Inl e \<Rightarrow> Inl e
         | Inr c' \<Rightarrow> Inr (g\<lparr>cells := (cells g)((r', c') := cells g (r', c') + v)\<rparr>)))"

text \<open>\<open>create_grid\<close> of \<open>find_coldest_spot.py\<close>.\<close>

definition create_grid ::
  "real list \<Rightarrow> real list \<Rightarrow> real \<Rightarrow> error + (grid \<times> real \<times> real \<times> int \<times> int)" where
  "create_grid latitudes longitudes unit_size =
     (case py_min latitudes of Inl e \<Rightarrow> Inl e | Inr lat_min \<Rightarrow>
      case py_max latitudes of Inl e \<Rightarrow> Inl e | Inr lat_max \<Rightarrow>
      case py_min longitudes of Inl e \<Rightarrow> Inl e | Inr lon_min \<Rightarrow>
      case py_max longitudes of Inl e \<Rightarrow> Inl e | Inr lon_max \<Rightarrow>
      case np_int_quot (lat_max - lat_min) unit_size of Inl e \<Rightarrow> Inl e | Inr h \<Rightarrow>
      case np_int_quot (lon_max - lon_min) unit_size of Inl e \<Rightarrow> Inl e | Inr w \<Rightarrow>
      (let grid_height = h + 1; grid_width = w + 1
       in case np_zeros grid_height grid_width of Inl e \<Rightarrow> Inl e
          | Inr grid \<Rightarrow> Inr (grid, lat_min, lon_min, grid_height, grid_width)))"

text \<open>
  The two accumulation loops differ in the decay kernel only: what is added, if anything,
  to the cell at offset \<open>(i, j)\<close> from the cell of the point.

  In \<open>find_coldest_spot.py\<close>:
  \<^verbatim>\<open>distance = np.sqrt(i**2 + j**2)
if distance <= max_distance: grid[row + i, col + j] += 1 / (2 ** int(distance))\<close>
\<close>

definition kernel_exp :: "int \<Rightarrow> int \<Rightarrow> int \<Rightarrow> real option" where
  "kernel_exp max_distance i j =
     (let distance = sqrt (of_int (i\<^sup>2 + j\<^sup>2))
      in if distance \<le> of_int max_distance then Some (1 / 2 ^ nat (py_int distance))
         else None)"

text \<open>
  In \<open>find_coldest_spot_4.py\<close>, where \<open>influence_latlong\<close> is what geopy's geodesic
  gives for the influence radius in metres, a pair of numpy floats:
  \<^verbatim>\<open>distance = math.sqrt(i**2 + j**2) * unit_size / max(influence_latlong)
if distance <= 1:
    decay = 1 - distance
    grid[row + i, col + j] += decay if decay > 0 else 0\<close>
  For a zero divisor the quotient of the numerator, which is not negative for the positive
  cell size of the script, is \<open>inf\<close> or \<open>nan\<close>, and the test is false.
\<close>

definition kernel_lin :: "real \<Rightarrow> real \<times> real \<Rightarrow> int \<Rightarrow> int \<Rightarrow> real option" where
  "kernel_lin unit_size influence_latlong i j =
     (let m = max (fst influence_latlong) (snd influence_latlong)
      in if m = 0 then None
         else (let distance = sqrt (of_int (i\<^sup>2 + j\<^sup>2)) * unit_size / m
               in if distance \<le> 1
                  then (let decay = 1 - distance in Some (if decay > 0 then decay else 0))
                  else None))"

text \<open>The body of the inner loop.\<close>

definition cell_step ::
  "(int \<Rightarrow> int \<Rightarrow> real option) \<Rightarrow> int \<Rightarrow> int \<Rightarrow> int \<Rightarrow> int \<Rightarrow> grid \<Rightarrow> error + grid" where
  "cell_step kern row col i j g =
     (case kern i j of None \<Rightarrow> Inr g | Some v \<Rightarrow> grid_add g (row + i) (col + j) v)"

text \<open>
  The offsets of one axis: \<open>range(max(-row, -max_distance), min(height - row,
  max_distance + 1))\<close>.
\<close>

definition clipped_range :: "int \<Rightarrow> int \<Rightarrow> int \<Rightarrow> int list" where
  "clipped_range row height max_distance =
     py_range (max (- row) (- max_distance)) (min (height - row) (max_distance + 1))"

text \<open>The body of the loop over the points.\<close>

definition point_step ::
  "(int \<Rightarrow> int \<Rightarrow> real option) \<Rightarrow> int \<Rightarrow> int \<Rightarrow> real \<Rightarrow> real \<Rightarrow> real \<Rightarrow> int \<Rightarrow>
   real \<times> real \<Rightarrow> grid \<Rightarrow> error + grid" where
  "point_step kern height width lat_min lon_min unit_size max_distance p g =
     (case p of (lat, lon) \<Rightarrow>
      case np_int_quot (lat - lat_min) unit_size of Inl e \<Rightarrow> Inl e | Inr row \<Rightarrow>
      case np_int_quot (lon - lon_min) unit_size of Inl e \<Rightarrow> Inl e | Inr col \<Rightarrow>
        for_each
          (\<lambda>i. for_each (\<lambda>j. cell_step kern row col i j)
                  (clipped_range col width max_distance))
          (clipped_range row height max_distance) g)"

definition accumulate ::
  "(int \<Rightarrow> int \<Rightarrow> real option) \<Rightarrow> grid \<Rightarrow> real list \<Rightarrow> real list \<Rightarrow> real \<Rightarrow> real \<Rightarrow> real \<Rightarrow>
   int \<Rightarrow> error + grid" where
  "accumulate kern grid latitudes longitudes lat_min lon_min unit_size max_distance =
     (let height = nrows grid; width = ncols grid
      in for_each (point_step kern height width lat_min lon_min unit_size max_distance)
           (zip latitudes longitudes) grid)"

text \<open>\<open>apply_points_to_grid\<close> of \<open>find_coldest_spot.py\<close>.\<close>

definition apply_points_to_grid ::
  "grid \<Rightarrow> real list \<Rightarrow> real list \<Rightarrow> real \<Rightarrow> real \<Rightarrow> real \<Rightarrow> int \<Rightarrow> error + grid" where
  "apply_points_to_grid grid latitudes longitudes lat_min lon_min unit_size max_distance =
     accumulate (kernel_exp max_distance) grid latitudes longitudes lat_min lon_min unit_size
       max_distance"

text \<open>
  \<open>apply_points_to_grid\<close> of \<open>find_coldest_spot_4.py\<close>.  \<open>meters_to_latlong\<close> calls
  geopy, which is not part of the repository: it is a parameter.
\<close>

definition apply_points_to_grid_4 ::
  "(real \<Rightarrow> real \<Rightarrow> real \<Rightarrow> real \<times> real) \<Rightarrow>
   grid \<Rightarrow> real list \<Rightarrow> real list \<Rightarrow> real \<Rightarrow> real \<Rightarrow> real \<Rightarrow> real \<Rightarrow> int \<Rightarrow> error + grid" where
  "apply_points_to_grid_4 meters_to_latlong grid latitudes longitudes lat_min lon_min unit_size
     influence_meters max_distance_cells =
     (let influence_latlong = meters_to_latlong lat_min lon_min influence_meters
      in accumulate (kernel_lin unit_size influence_latlong) grid latitudes longitudes
           lat_min lon_min unit_size max_distance_cells)"

section \<open>The radius sweep\<close>










section \<open>Notions used to state the properties\<close>

text \<open>
  What a kernel adds at an offset (nothing is \<open>0\<close>), what the loops of one point at the
  cell \<open>pc\<close> add to the cell \<open>rc\<close>, the cell of a point, the Euclidean distance of two
  cells in index space, and the value of a cell of a result.
\<close>

definition contrib :: "(int \<Rightarrow> int \<Rightarrow> real option) \<Rightarrow> int \<Rightarrow> int \<Rightarrow> real" where
  "contrib kern i j = (case kern i j of None \<Rightarrow> 0 | Some v \<Rightarrow> v)"

definition point_contrib ::
  "(int \<Rightarrow> int \<Rightarrow> real option) \<Rightarrow> int \<Rightarrow> int \<Rightarrow> int \<Rightarrow> int \<times> int \<Rightarrow> int \<times> int \<Rightarrow> real" where
  "point_contrib kern height width max_distance pc rc =
     (case pc of (row, col) \<Rightarrow> case rc of (r, c) \<Rightarrow>
        if 0 \<le> r \<and> r < height \<and> \<bar>r - row\<bar> \<le> max_distance \<and>
           0 \<le> c \<and> c < width \<and> \<bar>c - col\<bar> \<le> max_distance
        then contrib kern (r - row) (c - col) else 0)"

definition cell_of :: "real \<Rightarrow> real \<Rightarrow> real \<Rightarrow> real \<times> real \<Rightarrow> int \<times> int" where
  "cell_of lat_min lon_min unit_size p =
     (py_int ((fst p - lat_min) / unit_size), py_int ((snd p - lon_min) / unit_size))"

definition cell_distance :: "int \<times> int \<Rightarrow> int \<times> int \<Rightarrow> real" where
  "cell_distance pc rc =
     (case pc of (row, col) \<Rightarrow> case rc of (r, c) \<Rightarrow> sqrt (of_int ((r - row)\<^sup>2 + (c - col)\<^sup>2)))"

definition grid_value :: "error + grid \<Rightarrow> int \<times> int \<Rightarrow> error + real" where
  "grid_value res rc = (case res of Inl e \<Rightarrow> Inl e | Inr g \<Rightarrow> Inr (cells g rc))"


section \<open>Properties of \<open>haversine\<close>\<close>


lemma haversine_a_self: "haversine_a p p = 0"
  by (cases p) (simp add: radians_def)






text \<open>Along the equator the distance is the arc of the difference of the longitudes.\<close>

lemma haversine_equator:
  assumes "\<bar>lon2 - lon1\<bar> < 180"
  shows "haversine (0, lon1) (0, lon2) = 6371 * radians \<bar>lon2 - lon1\<bar>"
proof -
  define t where "t = radians \<bar>lon2 - lon1\<bar> / 2"
  have t: "0 \<le> t" "t < pi / 2"
    using assms by (simp_all add: t_def radians_def field_simps)
  have c: "0 < cos t" using t by (intro cos_gt_zero_pi) auto
  have s: "0 \<le> sin t" using t by (intro sin_ge_zero) auto
  have "(sin (radians (lon2 - lon1) / 2))\<^sup>2 = (sin t)\<^sup>2"
  proof (cases "0 \<le> lon2 - lon1")
    case True
    then show ?thesis by (simp add: t_def)
  next
    case False
    then have "radians (lon2 - lon1) / 2 = - t" by (simp add: t_def radians_def field_simps)
    then show ?thesis by (simp only: sin_minus power2_minus)
  qed
  then have a: "haversine_a (0, lon1) (0, lon2) = (sin t)\<^sup>2"
    by (simp add: radians_def)
  have "1 - (sin t)\<^sup>2 = (cos t)\<^sup>2"
    by (simp add: cos_squared_eq)
  then have "arctan2 (sqrt ((sin t)\<^sup>2)) (sqrt (1 - (sin t)\<^sup>2)) = arctan (sin t / cos t)"
    using c s by (simp add: arctan2_def)
  also have "\<dots> = t"
    using t arctan_tan [of t] by (simp add: tan_def)
  finally have angle: "arctan2 (sqrt ((sin t)\<^sup>2)) (sqrt (1 - (sin t)\<^sup>2)) = t" .
  have "haversine (0, lon1) (0, lon2) =
      6371 * (2 * arctan2 (sqrt ((sin t)\<^sup>2)) (sqrt (1 - (sin t)\<^sup>2)))"
    unfolding haversine_def Let_def a ..
  also have "\<dots> = 6371 * radians \<bar>lon2 - lon1\<bar>"
    unfolding angle by (simp add: t_def)
  finally show ?thesis .
qed

lemma one_degree_on_equator: "haversine (0, 1) (0, 0) = 6371 * pi / 180"
  using haversine_equator [of 0 1] by (simp add: radians_def)

lemma one_degree_gt: "1 < haversine (0, 1) (0, 0)"
  using pi_ge_two by (simp add: one_degree_on_equator)


lemma haversine_self: "haversine p p = 0"
  by (simp add: haversine_def haversine_a_self arctan2_def)



section \<open>Properties of the objectives\<close>





















text \<open>
  Claim C8, as amended.  For an empty point set, \<open>create_grid\<close> of
  \<open>find_coldest_spot.py\<close> raises \<open>ValueError\<close> (\<open>min\<close> of an empty sequence)
  before the grid is allocated.  The optimizer scripts do not check their input:
  \<open>read_coordinates_from_file\<close> returns the empty list for a file with a header only;
  the objective of \<open>optimal_point.py\<close> then raises \<open>ValueError\<close> when it is evaluated
  at a candidate in the circle and returns \<open>0\<close> outside, and the objective of
  \<open>optimal_point_pure_radius_dx.py\<close> returns the reciprocal of the distance to the
  circle.
\<close>

theorem empty_point_set_behaviour:
  "create_grid [] [] unit_size = Inl ValueError \<and>
   read_coordinates_from_file py_float [header] = Inr [] \<and>
   (haversine x center \<le> radius \<longrightarrow> objective_function x [] center radius = Inl ValueError) \<and>
   (radius < haversine x center \<longrightarrow> objective_function x [] center radius = Inr 0) \<and>
   (haversine x center < radius \<longrightarrow>
      objective_function_dx x [] center radius = Fin (1 / (radius - haversine x center)))"
  by (simp add: create_grid_def read_coordinates_from_file_def objective_function_def
      objective_function_dx_def py_sum_def np_recip_def)

theorem empty_point_set_behaviour_witness:
  "create_grid [] [] (1 / 100) = Inl ValueError \<and>
   read_coordinates_from_file (\<lambda>s. None) [[''latitude'', ''longitude'']] = Inr [] \<and>
   objective_function (0, 0) [] (0, 0) 11 = Inl ValueError \<and>
   objective_function (0, 1) [] (0, 0) 1 = Inr 0 \<and>
   objective_function_dx (0, 0) [] (0, 0) 11 = Fin (1 / 11)"
  using empty_point_set_behaviour
      [where unit_size = "1 / 100" and py_float = "\<lambda>s. None"
        and header = "[''latitude'', ''longitude'']"
        and x = "(0, 0)" and center = "(0, 0)" and radius = 11]
    empty_point_set_behaviour
      [where unit_size = "1 / 100" and py_float = "\<lambda>s. None"
        and header = "[''latitude'', ''longitude'']"
        and x = "(0, 1)" and center = "(0, 0)" and radius = 1]
    one_degree_gt
  by (simp add: haversine_self)

text \<open>
  The claim as stated fails: reading a file with a header only is no error, and the
  objectives are evaluated on the empty point set and return.
\<close>

theorem empty_point_set_is_read_and_evaluated:
  "read_coordinates_from_file (\<lambda>s. None) [[''latitude'', ''longitude'']] = Inr [] \<and>
   objective_function (0, 1) [] (0, 0) 1 = Inr 0 \<and>
   objective_function_dx (0, 0) [] (0, 0) 11 = Fin (1 / 11)"
  using one_degree_gt
  by (simp add: read_coordinates_from_file_def objective_function_def objective_function_dx_def
      haversine_self py_sum_def np_recip_def)

section \<open>Properties of the accumulation\<close>

lemma np_index_in_bounds: "0 \<le> k \<Longrightarrow> k < n \<Longrightarrow> np_index n k = Inr k"
  by (simp add: np_index_def)

lemma cell_step_in_bounds:
  assumes "0 \<le> row + i" "row + i < nrows g" "0 \<le> col + j" "col + j < ncols g"
  shows "cell_step kern row col i j g =
         Inr (g\<lparr>cells := (cells g)((row + i, col + j) := cells g (row + i, col + j) + contrib kern i j)\<rparr>)"
  using assms
  by (cases "kern i j") (simp_all add: cell_step_def grid_add_def np_index_in_bounds contrib_def)

lemma inner_loop:
  assumes "0 \<le> row + i" "row + i < nrows g"
    and "\<forall>j\<in>set js. 0 \<le> col + j \<and> col + j < ncols g"
    and "distinct js"
  shows "\<exists>g'. for_each (\<lambda>j. cell_step kern row col i j) js g = Inr g' \<and>
           nrows g' = nrows g \<and> ncols g' = ncols g \<and>
           (\<forall>r c. cells g' (r, c) =
              cells g (r, c) + (if r = row + i \<and> c - col \<in> set js then contrib kern i (c - col) else 0))"
  using assms
proof (induction js arbitrary: g)
  case Nil
  then show ?case by simp
next
  case (Cons j js)
  let ?g1 = "g\<lparr>cells := (cells g)((row + i, col + j) := cells g (row + i, col + j) + contrib kern i j)\<rparr>"
  have step: "cell_step kern row col i j g = Inr ?g1"
    using Cons.prems by (intro cell_step_in_bounds) auto
  have "\<exists>g'. for_each (\<lambda>j. cell_step kern row col i j) js ?g1 = Inr g' \<and>
           nrows g' = nrows ?g1 \<and> ncols g' = ncols ?g1 \<and>
           (\<forall>r c. cells g' (r, c) =
              cells ?g1 (r, c) + (if r = row + i \<and> c - col \<in> set js then contrib kern i (c - col) else 0))"
    using Cons.prems by (intro Cons.IH) auto
  then obtain g' where g': "for_each (\<lambda>j. cell_step kern row col i j) js ?g1 = Inr g'"
    "nrows g' = nrows g" "ncols g' = ncols g"
    "\<And>r c. cells g' (r, c) =
              cells ?g1 (r, c) + (if r = row + i \<and> c - col \<in> set js then contrib kern i (c - col) else 0)"
    by auto
  have "j \<notin> set js" using Cons.prems by simp
  then have "cells g' (r, c) =
      cells g (r, c) + (if r = row + i \<and> c - col \<in> set (j # js) then contrib kern i (c - col) else 0)" for r c
    by (auto simp: g'(4))
  with g'(1,2,3) step show ?case by simp
qed

lemma outer_loop:
  assumes "\<forall>i\<in>set ivs. 0 \<le> row + i \<and> row + i < nrows g"
    and "\<forall>j\<in>set js. 0 \<le> col + j \<and> col + j < ncols g"
    and "distinct ivs" "distinct js"
  shows "\<exists>g'. for_each (\<lambda>i. for_each (\<lambda>j. cell_step kern row col i j) js) ivs g = Inr g' \<and>
           nrows g' = nrows g \<and> ncols g' = ncols g \<and>
           (\<forall>r c. cells g' (r, c) =
              cells g (r, c) +
              (if r - row \<in> set ivs \<and> c - col \<in> set js then contrib kern (r - row) (c - col) else 0))"
  using assms
proof (induction ivs arbitrary: g)
  case Nil
  then show ?case by simp
next
  case (Cons i ivs)
  obtain g1 where g1: "for_each (\<lambda>j. cell_step kern row col i j) js g = Inr g1"
    "nrows g1 = nrows g" "ncols g1 = ncols g"
    "\<And>r c. cells g1 (r, c) =
        cells g (r, c) + (if r = row + i \<and> c - col \<in> set js then contrib kern i (c - col) else 0)"
    using inner_loop [of row i g js col kern] Cons.prems by auto
  have "\<exists>g'. for_each (\<lambda>i. for_each (\<lambda>j. cell_step kern row col i j) js) ivs g1 = Inr g' \<and>
           nrows g' = nrows g1 \<and> ncols g' = ncols g1 \<and>
           (\<forall>r c. cells g' (r, c) =
              cells g1 (r, c) +
              (if r - row \<in> set ivs \<and> c - col \<in> set js then contrib kern (r - row) (c - col) else 0))"
    using Cons.prems g1(2,3) by (intro Cons.IH) auto
  then obtain g' where g': "for_each (\<lambda>i. for_each (\<lambda>j. cell_step kern row col i j) js) ivs g1 = Inr g'"
    "nrows g' = nrows g" "ncols g' = ncols g"
    "\<And>r c. cells g' (r, c) =
              cells g1 (r, c) +
              (if r - row \<in> set ivs \<and> c - col \<in> set js then contrib kern (r - row) (c - col) else 0)"
    using g1(2,3) by auto
  have "i \<notin> set ivs" using Cons.prems by simp
  then have "cells g' (r, c) =
      cells g (r, c) +
      (if r - row \<in> set (i # ivs) \<and> c - col \<in> set js then contrib kern (r - row) (c - col) else 0)" for r c
    by (auto simp: g'(4) g1(4))
  with g'(1,2,3) g1(1) show ?case by simp
qed

lemma set_clipped_range:
  "set (clipped_range row height md) = {i. - row \<le> i \<and> - md \<le> i \<and> i < height - row \<and> i \<le> md}"
  by (auto simp: clipped_range_def py_range_def)

lemma distinct_clipped_range: "distinct (clipped_range row height md)"
  by (simp add: clipped_range_def py_range_def)

lemma mem_clipped_range:
  "r - row \<in> set (clipped_range row height md) \<longleftrightarrow> 0 \<le> r \<and> r < height \<and> \<bar>r - row\<bar> \<le> md"
  by (auto simp: set_clipped_range)

lemma point_step_cells:
  assumes "unit_size \<noteq> 0" "nrows g = height" "ncols g = width"
  shows "\<exists>g'. point_step kern height width lat_min lon_min unit_size md p g = Inr g' \<and>
           nrows g' = height \<and> ncols g' = width \<and>
           (\<forall>rc. cells g' rc =
              cells g rc + point_contrib kern height width md (cell_of lat_min lon_min unit_size p) rc)"
proof -
  obtain lat lon where p: "p = (lat, lon)" by (cases p)
  define row where "row = py_int ((lat - lat_min) / unit_size)"
  define col where "col = py_int ((lon - lon_min) / unit_size)"
  have bi: "\<forall>i\<in>set (clipped_range row height md). 0 \<le> row + i \<and> row + i < nrows g"
    using assms(2) by (auto simp: set_clipped_range)
  have bj: "\<forall>j\<in>set (clipped_range col width md). 0 \<le> col + j \<and> col + j < ncols g"
    using assms(3) by (auto simp: set_clipped_range)
  obtain g' where g': "for_each (\<lambda>i. for_each (\<lambda>j. cell_step kern row col i j)
         (clipped_range col width md)) (clipped_range row height md) g = Inr g'"
    "nrows g' = nrows g" "ncols g' = ncols g"
    "\<And>r c. cells g' (r, c) = cells g (r, c) +
        (if r - row \<in> set (clipped_range row height md) \<and> c - col \<in> set (clipped_range col width md)
         then contrib kern (r - row) (c - col) else 0)"
    using outer_loop [OF bi bj distinct_clipped_range distinct_clipped_range, of kern] by blast
  have run: "point_step kern height width lat_min lon_min unit_size md p g = Inr g'"
    using assms(1) g'(1) by (simp add: point_step_def p np_int_quot_def row_def col_def)
  have "cells g' rc =
      cells g rc + point_contrib kern height width md (cell_of lat_min lon_min unit_size p) rc" for rc
  proof -
    obtain r c where rc: "rc = (r, c)" by (cases rc)
    show ?thesis
      unfolding rc g'(4) mem_clipped_range
      by (simp add: point_contrib_def cell_of_def p row_def col_def)
  qed
  with run g'(2,3) assms(2,3) show ?thesis by auto
qed

lemma for_each_append:
  "for_each body (vs @ ws) s =
     (case for_each body vs s of Inl e \<Rightarrow> Inl e | Inr s' \<Rightarrow> for_each body ws s')"
  by (induction vs arbitrary: s) (auto split: sum.splits)

lemma for_each_points:
  assumes "unit_size \<noteq> 0" "nrows g = height" "ncols g = width"
  shows "\<exists>g'. for_each (point_step kern height width lat_min lon_min unit_size md) ps g = Inr g' \<and>
           nrows g' = height \<and> ncols g' = width \<and>
           (\<forall>rc. cells g' rc = cells g rc +
              (\<Sum>p\<leftarrow>ps. point_contrib kern height width md (cell_of lat_min lon_min unit_size p) rc))"
  using assms(2,3)
proof (induction ps arbitrary: g)
  case Nil
  then show ?case by simp
next
  case (Cons p ps)
  obtain g1 where g1: "point_step kern height width lat_min lon_min unit_size md p g = Inr g1"
    "nrows g1 = height" "ncols g1 = width"
    "\<And>rc. cells g1 rc =
        cells g rc + point_contrib kern height width md (cell_of lat_min lon_min unit_size p) rc"
    using point_step_cells [OF assms(1) Cons.prems, of kern lat_min lon_min md p] by blast
  obtain g' where g': "for_each (point_step kern height width lat_min lon_min unit_size md) ps g1 = Inr g'"
    "nrows g' = height" "ncols g' = width"
    "\<And>rc. cells g' rc = cells g1 rc +
        (\<Sum>p\<leftarrow>ps. point_contrib kern height width md (cell_of lat_min lon_min unit_size p) rc)"
    using Cons.IH [OF g1(2,3)] by blast
  show ?case using g1(1) g' by (simp add: g1(4))
qed

lemma accumulate_cells:
  assumes "unit_size \<noteq> 0"
  shows "\<exists>g'. accumulate kern g latitudes longitudes lat_min lon_min unit_size md = Inr g' \<and>
           nrows g' = nrows g \<and> ncols g' = ncols g \<and>
           (\<forall>rc. cells g' rc = cells g rc +
              (\<Sum>p\<leftarrow>zip latitudes longitudes.
                 point_contrib kern (nrows g) (ncols g) md (cell_of lat_min lon_min unit_size p) rc))"
  using for_each_points [where g = g and kern = kern and lat_min = lat_min and lon_min = lon_min
      and md = md and ps = "zip latitudes longitudes", OF assms refl refl]
  by (simp add: accumulate_def Let_def)

lemma accumulate_append:
  assumes "unit_size \<noteq> 0" "length latitudes = length longitudes"
  shows "\<exists>g1 g2. accumulate kern g latitudes longitudes lat_min lon_min unit_size md = Inr g1 \<and>
           accumulate kern g (latitudes @ [lat]) (longitudes @ [lon]) lat_min lon_min unit_size md = Inr g2 \<and>
           (\<forall>rc. cells g2 rc = cells g1 rc +
              point_contrib kern (nrows g) (ncols g) md (cell_of lat_min lon_min unit_size (lat, lon)) rc)"
proof -
  obtain g1 where g1: "accumulate kern g latitudes longitudes lat_min lon_min unit_size md = Inr g1"
    "nrows g1 = nrows g" "ncols g1 = ncols g"
    using accumulate_cells [OF assms(1)] by blast
  obtain g2 where g2: "point_step kern (nrows g) (ncols g) lat_min lon_min unit_size md (lat, lon) g1 = Inr g2"
    "\<And>rc. cells g2 rc = cells g1 rc +
        point_contrib kern (nrows g) (ncols g) md (cell_of lat_min lon_min unit_size (lat, lon)) rc"
    using point_step_cells [OF assms(1) g1(2,3)] by blast
  have "accumulate kern g (latitudes @ [lat]) (longitudes @ [lon]) lat_min lon_min unit_size md = Inr g2"
    using g1(1) g2(1) assms(2) by (simp add: accumulate_def Let_def for_each_append)
  with g1(1) g2(2) show ?thesis by blast
qed

lemma py_int_nonneg: "0 \<le> v \<Longrightarrow> py_int v = \<lfloor>v\<rfloor>"
  by (simp add: py_int_def)

lemma contrib_kernel_exp:
  "contrib (kernel_exp md) i j =
     (if sqrt (of_int (i\<^sup>2 + j\<^sup>2)) \<le> of_int md
      then 1 / 2 ^ nat \<lfloor>sqrt (of_int (i\<^sup>2 + j\<^sup>2))\<rfloor> else 0)"
  by (simp add: contrib_def kernel_exp_def Let_def py_int_nonneg)

lemma contrib_kernel_exp_nonneg: "0 \<le> contrib (kernel_exp md) i j"
  by (simp add: contrib_kernel_exp)

lemma contrib_kernel_lin_nonneg: "0 \<le> contrib (kernel_lin unit_size il) i j"
  by (simp add: contrib_def kernel_lin_def Let_def)

lemma contrib_kernel_lin:
  assumes "0 < unit_size" "0 < max (fst il) (snd il)"
  shows "contrib (kernel_lin unit_size il) i j =
     (if sqrt (of_int (i\<^sup>2 + j\<^sup>2)) \<le> max (fst il) (snd il) / unit_size
      then max 0 (1 - sqrt (of_int (i\<^sup>2 + j\<^sup>2)) / (max (fst il) (snd il) / unit_size)) else 0)"
proof -
  define m where "m = max (fst il) (snd il)"
  define d where "d = sqrt (of_int (i\<^sup>2 + j\<^sup>2))"
  have m: "0 < m" using assms(2) by (simp add: m_def)
  have le: "d * unit_size / m \<le> 1 \<longleftrightarrow> d \<le> m / unit_size"
    using m assms(1) by (simp add: field_simps)
  have "contrib (kernel_lin unit_size il) i j =
      (if d * unit_size / m \<le> 1 then (if 1 - d * unit_size / m > 0 then 1 - d * unit_size / m else 0) else 0)"
    using assms(2) by (simp add: contrib_def kernel_lin_def Let_def m_def d_def)
  also have "\<dots> = (if d \<le> m / unit_size then max 0 (1 - d / (m / unit_size)) else 0)"
    unfolding le by (simp add: max_def)
  finally show ?thesis by (simp add: m_def d_def)
qed

lemma sqrt_sum_squares_window:
  assumes "sqrt (of_int (i\<^sup>2 + j\<^sup>2)) \<le> of_int md"
  shows "\<bar>i\<bar> \<le> md \<and> \<bar>j\<bar> \<le> md"
proof -
  have "real_of_int \<bar>i\<bar> = sqrt ((of_int i)\<^sup>2)" by simp
  also have "\<dots> \<le> sqrt (of_int (i\<^sup>2 + j\<^sup>2))" by (intro real_sqrt_le_mono) simp
  finally have i: "real_of_int \<bar>i\<bar> \<le> of_int md" using assms by linarith
  have "real_of_int \<bar>j\<bar> = sqrt ((of_int j)\<^sup>2)" by simp
  also have "\<dots> \<le> sqrt (of_int (i\<^sup>2 + j\<^sup>2))" by (intro real_sqrt_le_mono) simp
  finally have j: "real_of_int \<bar>j\<bar> \<le> of_int md" using assms by linarith
  from i j show ?thesis by linarith
qed

lemma point_contrib_exp:
  "point_contrib (kernel_exp md) height width md pc (r, c) =
     (if 0 \<le> r \<and> r < height \<and> 0 \<le> c \<and> c < width \<and> cell_distance pc (r, c) \<le> of_int md
      then 1 / 2 ^ nat \<lfloor>cell_distance pc (r, c)\<rfloor> else 0)"
proof -
  obtain row col where pc: "pc = (row, col)" by (cases pc)
  show ?thesis
    using sqrt_sum_squares_window [of "r - row" "c - col" md]
    by (auto simp: pc point_contrib_def cell_distance_def contrib_kernel_exp)
qed

lemma point_contrib_lin:
  assumes "0 < unit_size" "0 < max (fst il) (snd il)"
  shows "point_contrib (kernel_lin unit_size il) height width md (row, col) (r, c) =
     (if 0 \<le> r \<and> r < height \<and> \<bar>r - row\<bar> \<le> md \<and> 0 \<le> c \<and> c < width \<and> \<bar>c - col\<bar> \<le> md \<and>
         cell_distance (row, col) (r, c) \<le> max (fst il) (snd il) / unit_size
      then max 0 (1 - cell_distance (row, col) (r, c) / (max (fst il) (snd il) / unit_size)) else 0)"
  by (simp add: point_contrib_def cell_distance_def contrib_kernel_lin [OF assms])

lemma point_contrib_nonneg:
  assumes "\<And>i j. 0 \<le> contrib kern i j"
  shows "0 \<le> point_contrib kern height width md pc rc"
  using assms by (cases pc, cases rc) (simp add: point_contrib_def)

lemma point_contrib_lin_far:
  assumes "1 < cell_distance pc rc * unit_size / max (fst il) (snd il)"
  shows "point_contrib (kernel_lin unit_size il) height width md pc rc = 0"
  using assms
  by (cases pc, cases rc) (simp add: point_contrib_def cell_distance_def contrib_def kernel_lin_def Let_def)

lemma sum_list_zero: "(\<And>v. v \<in> set vs \<Longrightarrow> f v = 0) \<Longrightarrow> (\<Sum>v\<leftarrow>vs. f v) = (0::real)"
  by (induction vs) auto

lemma for_each_zero_unit:
  "for_each (point_step kern height width lat_min lon_min 0 md) ps g \<noteq> Inl IndexError"
  by (cases ps) (auto simp: point_step_def np_int_quot_def split: prod.splits)

lemma accumulate_no_index_error:
  "accumulate kern g latitudes longitudes lat_min lon_min unit_size md \<noteq> Inl IndexError"
proof (cases "unit_size = 0")
  case True
  then show ?thesis by (simp add: accumulate_def Let_def for_each_zero_unit)
next
  case False
  from accumulate_cells [OF this, of kern g latitudes longitudes lat_min lon_min md]
  show ?thesis by auto
qed

text \<open>
  Claim C9.  The accumulation never indexes out of bounds: for a grid of shape
  \<open>(height, width)\<close>, any cell \<open>(row, col)\<close> of a point, inside the grid or not, and any
  window radius, every pair of offsets \<open>(i, j)\<close> of the clipped loops has
  \<open>0 \<le> row + i < height\<close> and \<open>0 \<le> col + j < width\<close>; neither accumulation raises
  \<open>IndexError\<close> (in \<open>find_coldest_spot_4.py\<close> for a cell size that is not negative,
  where the model of its kernel is exact).
\<close>

theorem accumulation_stays_in_bounds:
  "(\<forall>i\<in>set (clipped_range row height max_distance).
      \<forall>j\<in>set (clipped_range col width max_distance).
        0 \<le> row + i \<and> row + i < height \<and> 0 \<le> col + j \<and> col + j < width) \<and>
   apply_points_to_grid g latitudes longitudes lat_min lon_min unit_size max_distance
     \<noteq> Inl IndexError \<and>
   (0 \<le> unit_size \<longrightarrow>
      apply_points_to_grid_4 meters_to_latlong g latitudes longitudes lat_min lon_min unit_size
        influence_meters max_distance \<noteq> Inl IndexError)"
  by (simp add: set_clipped_range apply_points_to_grid_def apply_points_to_grid_4_def Let_def
      accumulate_no_index_error)

theorem accumulation_stays_in_bounds_witness:
  "clipped_range (- 3) 4 10 = [3, 4, 5, 6] \<and> clipped_range 7 5 10 = [- 7, - 6, - 5, - 4, - 3] \<and>
   list_all (\<lambda>i. list_all (\<lambda>j. 0 \<le> - 3 + i \<and> - 3 + i < 4 \<and> 0 \<le> 7 + j \<and> 7 + j < 5)
     (clipped_range 7 5 10)) (clipped_range (- 3) 4 10) \<and>
   apply_points_to_grid (zeros 4 5) [- 3] [7] 0 0 1 10 \<noteq> Inl IndexError"
proof -
  have a: "clipped_range (- 3) 4 10 = [3, 4, 5, 6]"
    by (simp add: clipped_range_def py_range_def upto.simps)
  have b: "clipped_range 7 5 10 = [- 7, - 6, - 5, - 4, - 3]"
    by (simp add: clipped_range_def py_range_def upto.simps)
  from accumulation_stays_in_bounds [of "- 3" 4 10 7 5 "zeros 4 5" "[- 3]" "[7]" 0 0 1]
  show ?thesis unfolding list_all_iff a b by simp
qed

text \<open>
  Claim C5.  The accumulation is monotone: after accumulating a point set extended by one
  more point, no cell has a smaller value than after accumulating the point set.
\<close>

theorem accumulation_monotone:
  assumes "0 < unit_size" "length latitudes = length longitudes"
  shows "(\<exists>g1 g2.
            apply_points_to_grid g latitudes longitudes lat_min lon_min unit_size max_distance = Inr g1 \<and>
            apply_points_to_grid g (latitudes @ [lat]) (longitudes @ [lon]) lat_min lon_min
              unit_size max_distance = Inr g2 \<and>
            (\<forall>rc. cells g1 rc \<le> cells g2 rc)) \<and>
         (\<exists>g1 g2.
            apply_points_to_grid_4 meters_to_latlong g latitudes longitudes lat_min lon_min
              unit_size influence_meters max_distance_cells = Inr g1 \<and>
            apply_points_to_grid_4 meters_to_latlong g (latitudes @ [lat]) (longitudes @ [lon])
              lat_min lon_min unit_size influence_meters max_distance_cells = Inr g2 \<and>
            (\<forall>rc. cells g1 rc \<le> cells g2 rc))"
proof -
  have nz: "unit_size \<noteq> 0" using assms(1) by simp
  have mono: "\<exists>g1 g2. accumulate kern g latitudes longitudes lat_min lon_min unit_size md = Inr g1 \<and>
      accumulate kern g (latitudes @ [lat]) (longitudes @ [lon]) lat_min lon_min unit_size md = Inr g2 \<and>
      (\<forall>rc. cells g1 rc \<le> cells g2 rc)"
    if nn: "\<And>i j. 0 \<le> contrib kern i j" for kern md
  proof -
    obtain g1 g2 where
      "accumulate kern g latitudes longitudes lat_min lon_min unit_size md = Inr g1"
      "accumulate kern g (latitudes @ [lat]) (longitudes @ [lon]) lat_min lon_min unit_size md = Inr g2"
      "\<And>rc. cells g2 rc = cells g1 rc +
         point_contrib kern (nrows g) (ncols g) md (cell_of lat_min lon_min unit_size (lat, lon)) rc"
      using accumulate_append [OF nz assms(2)] by blast
    moreover have "0 \<le> point_contrib kern (nrows g) (ncols g) md
        (cell_of lat_min lon_min unit_size (lat, lon)) rc" for rc
      by (rule point_contrib_nonneg) (rule nn)
    ultimately show ?thesis by (metis le_add_same_cancel1)
  qed
  show ?thesis
    unfolding apply_points_to_grid_def apply_points_to_grid_4_def Let_def
    using mono [OF contrib_kernel_exp_nonneg] mono [OF contrib_kernel_lin_nonneg] by blast
qed

theorem accumulation_monotone_witness:
  "(\<exists>g1 g2.
      apply_points_to_grid (zeros 2 2) [0] [0] 0 0 1 10 = Inr g1 \<and>
      apply_points_to_grid (zeros 2 2) [0, 1] [0, 1] 0 0 1 10 = Inr g2 \<and>
      cells g1 (1, 1) \<le> cells g2 (1, 1)) \<and>
   (\<exists>g1 g2.
      apply_points_to_grid_4 (\<lambda>lat lon meters. (2, 0)) (zeros 2 2) [0] [0] 0 0 1 1000 5 = Inr g1 \<and>
      apply_points_to_grid_4 (\<lambda>lat lon meters. (2, 0)) (zeros 2 2) [0, 1] [0, 1] 0 0 1 1000 5
        = Inr g2 \<and>
      cells g1 (1, 1) \<le> cells g2 (1, 1))"
  using accumulation_monotone
      [where unit_size = 1 and latitudes = "[0]" and longitudes = "[0]" and lat = 1 and lon = 1
        and g = "zeros 2 2" and lat_min = 0 and lon_min = 0 and max_distance = 10
        and meters_to_latlong = "\<lambda>lat lon meters. (2, 0)" and influence_meters = 1000
        and max_distance_cells = 5]
  by simp blast

text \<open>
  Claim C4.  Starting from the grid of zeros, a cell that is farther than the influence
  radius from the cell of every point (farther than \<open>max_distance\<close> cells in
  \<open>find_coldest_spot.py\<close>; at a distance beyond \<open>1\<close> in units of the influence radius
  in \<open>find_coldest_spot_4.py\<close>) has the value \<open>0\<close> after the accumulation.
\<close>

theorem untouched_cell_is_zero:
  assumes "0 < unit_size" "np_zeros height width = Inr g"
  shows "((\<forall>p\<in>set (zip latitudes longitudes).
             of_int max_distance < cell_distance (cell_of lat_min lon_min unit_size p) rc) \<longrightarrow>
          (\<exists>g'. apply_points_to_grid g latitudes longitudes lat_min lon_min unit_size max_distance
                   = Inr g' \<and> cells g' rc = 0)) \<and>
         ((\<forall>p\<in>set (zip latitudes longitudes).
             1 < cell_distance (cell_of lat_min lon_min unit_size p) rc * unit_size /
                 max (fst (meters_to_latlong lat_min lon_min influence_meters))
                     (snd (meters_to_latlong lat_min lon_min influence_meters))) \<longrightarrow>
          (\<exists>g'. apply_points_to_grid_4 meters_to_latlong g latitudes longitudes lat_min lon_min
                   unit_size influence_meters max_distance_cells = Inr g' \<and> cells g' rc = 0))"
proof -
  have nz: "unit_size \<noteq> 0" using assms(1) by simp
  have g0: "cells g rc = 0"
    using assms(2) by (auto simp: np_zeros_def zeros_def split: if_splits)
  have untouched: "\<exists>g'. accumulate kern g latitudes longitudes lat_min lon_min unit_size md = Inr g' \<and>
      cells g' rc = 0"
    if far: "\<And>p. p \<in> set (zip latitudes longitudes) \<Longrightarrow>
        point_contrib kern (nrows g) (ncols g) md (cell_of lat_min lon_min unit_size p) rc = 0"
    for kern md
  proof -
    obtain g' where g': "accumulate kern g latitudes longitudes lat_min lon_min unit_size md = Inr g'"
      "cells g' rc = cells g rc +
         (\<Sum>p\<leftarrow>zip latitudes longitudes.
            point_contrib kern (nrows g) (ncols g) md (cell_of lat_min lon_min unit_size p) rc)"
      using accumulate_cells [OF nz] by blast
    have "(\<Sum>p\<leftarrow>zip latitudes longitudes.
            point_contrib kern (nrows g) (ncols g) md (cell_of lat_min lon_min unit_size p) rc) = 0"
      by (rule sum_list_zero) (rule far)
    with g' g0 show ?thesis by simp
  qed
  obtain r c where rc: "rc = (r, c)" by (cases rc)
  show ?thesis
  proof (intro conjI impI)
    assume far: "\<forall>p\<in>set (zip latitudes longitudes).
        of_int max_distance < cell_distance (cell_of lat_min lon_min unit_size p) rc"
    show "\<exists>g'. apply_points_to_grid g latitudes longitudes lat_min lon_min unit_size max_distance
        = Inr g' \<and> cells g' rc = 0"
      unfolding apply_points_to_grid_def
      by (rule untouched) (use far in \<open>auto simp: rc point_contrib_exp\<close>)
  next
    assume far: "\<forall>p\<in>set (zip latitudes longitudes).
        1 < cell_distance (cell_of lat_min lon_min unit_size p) rc * unit_size /
                 max (fst (meters_to_latlong lat_min lon_min influence_meters))
                     (snd (meters_to_latlong lat_min lon_min influence_meters))"
    show "\<exists>g'. apply_points_to_grid_4 meters_to_latlong g latitudes longitudes lat_min lon_min
        unit_size influence_meters max_distance_cells = Inr g' \<and> cells g' rc = 0"
      unfolding apply_points_to_grid_4_def Let_def
      by (rule untouched) (use far in \<open>auto intro: point_contrib_lin_far\<close>)
  qed
qed

lemma cell_of_origin: "cell_of 0 0 1 (0, 0) = (0, 0)"
  by (simp add: cell_of_def py_int_def)

theorem untouched_cell_is_zero_witness:
  "np_zeros 1 3 = Inr (zeros 1 3) \<and>
   cell_distance (cell_of 0 0 1 (0, 0)) (0, 2) = 2 \<and>
   (\<exists>g'. apply_points_to_grid (zeros 1 3) [0] [0] 0 0 1 1 = Inr g' \<and> cells g' (0, 2) = 0) \<and>
   (\<exists>g'. apply_points_to_grid_4 (\<lambda>lat lon meters. (1, 0)) (zeros 1 3) [0] [0] 0 0 1 1000 1 = Inr g'
      \<and> cells g' (0, 2) = 0)"
proof -
  have z: "np_zeros 1 3 = Inr (zeros 1 3)" by (simp add: np_zeros_def)
  have d: "cell_distance (cell_of 0 0 1 (0, 0)) (0, 2) = 2"
    by (simp add: cell_of_origin cell_distance_def)
  from untouched_cell_is_zero [OF _ z, of 1 "[0]" "[0]" 1 0 0 "(0, 2)" "\<lambda>lat lon meters. (1, 0)" 1000 1]
  show ?thesis by (simp add: z d)
qed

text \<open>
  Claim C3, as amended.  To a cell of the grid at distance \<open>d\<close>, in index space, from the
  cell of a point, the point adds: in \<open>find_coldest_spot.py\<close>, for \<open>d\<close> up to
  \<open>max_distance\<close>, one over two to the power of the integer part of \<open>d\<close>; in
  \<open>find_coldest_spot_4.py\<close>, for a cell in the window and \<open>d\<close> up to the influence
  radius in cells, \<open>max 0 (1 - d / radius)\<close>.
\<close>

theorem kernel_contribution:
  assumes "0 < unit_size" "length latitudes = length longitudes"
    and "0 \<le> r" "r < nrows g" "0 \<le> c" "c < ncols g"
    and "cell_of lat_min lon_min unit_size (lat, lon) = (row, col)"
    and "d = cell_distance (row, col) (r, c)"
  shows "(d \<le> of_int max_distance \<longrightarrow>
          (\<exists>g1 g2.
             apply_points_to_grid g latitudes longitudes lat_min lon_min unit_size max_distance
               = Inr g1 \<and>
             apply_points_to_grid g (latitudes @ [lat]) (longitudes @ [lon]) lat_min lon_min
               unit_size max_distance = Inr g2 \<and>
             cells g2 (r, c) = cells g1 (r, c) + 1 / 2 ^ nat \<lfloor>d\<rfloor>)) \<and>
         (max (fst (meters_to_latlong lat_min lon_min influence_meters))
              (snd (meters_to_latlong lat_min lon_min influence_meters)) = radius * unit_size \<and>
          0 < radius \<and> d \<le> radius \<and>
          \<bar>r - row\<bar> \<le> max_distance_cells \<and> \<bar>c - col\<bar> \<le> max_distance_cells \<longrightarrow>
          (\<exists>g1 g2.
             apply_points_to_grid_4 meters_to_latlong g latitudes longitudes lat_min lon_min
               unit_size influence_meters max_distance_cells = Inr g1 \<and>
             apply_points_to_grid_4 meters_to_latlong g (latitudes @ [lat]) (longitudes @ [lon])
               lat_min lon_min unit_size influence_meters max_distance_cells = Inr g2 \<and>
             cells g2 (r, c) = cells g1 (r, c) + max 0 (1 - d / radius)))"
proof -
  have nz: "unit_size \<noteq> 0" using assms(1) by simp
  show ?thesis
  proof (intro conjI impI)
    assume near: "d \<le> of_int max_distance"
    obtain g1 g2 where
      "accumulate (kernel_exp max_distance) g latitudes longitudes lat_min lon_min unit_size
         max_distance = Inr g1"
      "accumulate (kernel_exp max_distance) g (latitudes @ [lat]) (longitudes @ [lon]) lat_min
         lon_min unit_size max_distance = Inr g2"
      "\<And>rc. cells g2 rc = cells g1 rc +
         point_contrib (kernel_exp max_distance) (nrows g) (ncols g) max_distance
           (cell_of lat_min lon_min unit_size (lat, lon)) rc"
      using accumulate_append [OF nz assms(2)] by blast
    moreover have "point_contrib (kernel_exp max_distance) (nrows g) (ncols g) max_distance
        (cell_of lat_min lon_min unit_size (lat, lon)) (r, c) = 1 / 2 ^ nat \<lfloor>d\<rfloor>"
      using assms(3-6) near by (simp add: point_contrib_exp assms(7) assms(8) [symmetric])
    ultimately show "\<exists>g1 g2.
        apply_points_to_grid g latitudes longitudes lat_min lon_min unit_size max_distance = Inr g1 \<and>
        apply_points_to_grid g (latitudes @ [lat]) (longitudes @ [lon]) lat_min lon_min
          unit_size max_distance = Inr g2 \<and>
        cells g2 (r, c) = cells g1 (r, c) + 1 / 2 ^ nat \<lfloor>d\<rfloor>"
      unfolding apply_points_to_grid_def by metis
  next
    define il where "il = meters_to_latlong lat_min lon_min influence_meters"
    assume "max (fst (meters_to_latlong lat_min lon_min influence_meters))
            (snd (meters_to_latlong lat_min lon_min influence_meters)) = radius * unit_size \<and>
        0 < radius \<and> d \<le> radius \<and>
        \<bar>r - row\<bar> \<le> max_distance_cells \<and> \<bar>c - col\<bar> \<le> max_distance_cells"
    then have m: "max (fst il) (snd il) = radius * unit_size"
      and rad: "0 < radius" and near: "d \<le> radius"
      and win: "\<bar>r - row\<bar> \<le> max_distance_cells" "\<bar>c - col\<bar> \<le> max_distance_cells"
      by (simp_all add: il_def)
    note u = assms(1)
    have mpos: "0 < max (fst il) (snd il)" using u rad by (simp add: m)
    have quot: "max (fst il) (snd il) / unit_size = radius" using u by (simp add: m)
    obtain g1 g2 where
      "accumulate (kernel_lin unit_size il) g latitudes longitudes lat_min lon_min unit_size
         max_distance_cells = Inr g1"
      "accumulate (kernel_lin unit_size il) g (latitudes @ [lat]) (longitudes @ [lon]) lat_min
         lon_min unit_size max_distance_cells = Inr g2"
      "\<And>rc. cells g2 rc = cells g1 rc +
         point_contrib (kernel_lin unit_size il) (nrows g) (ncols g) max_distance_cells
           (cell_of lat_min lon_min unit_size (lat, lon)) rc"
      using accumulate_append [OF nz assms(2)] by blast
    moreover have "point_contrib (kernel_lin unit_size il) (nrows g) (ncols g) max_distance_cells
        (cell_of lat_min lon_min unit_size (lat, lon)) (r, c) = max 0 (1 - d / radius)"
      using assms(3-6) near win
      by (simp add: assms(7) point_contrib_lin [OF u mpos] quot assms(8) [symmetric])
    ultimately show "\<exists>g1 g2.
        apply_points_to_grid_4 meters_to_latlong g latitudes longitudes lat_min lon_min
          unit_size influence_meters max_distance_cells = Inr g1 \<and>
        apply_points_to_grid_4 meters_to_latlong g (latitudes @ [lat]) (longitudes @ [lon])
          lat_min lon_min unit_size influence_meters max_distance_cells = Inr g2 \<and>
        cells g2 (r, c) = cells g1 (r, c) + max 0 (1 - d / radius)"
      unfolding apply_points_to_grid_4_def Let_def il_def [symmetric] by metis
  qed
qed

lemma floor_sqrt_2: "\<lfloor>sqrt 2\<rfloor> = 1"
proof -
  have "1 \<le> sqrt 2" by simp
  moreover have "sqrt 2 < sqrt 4" by (rule real_sqrt_less_mono) simp
  ultimately show ?thesis by (simp add: floor_eq_iff)
qed

lemma cell_distance_diag: "cell_distance (0, 0) (1, 1) = sqrt 2"
  by (simp add: cell_distance_def)

lemma powr_sqrt_2: "2 powr sqrt 2 \<noteq> (2::real)"
proof
  assume "2 powr sqrt 2 = (2::real)"
  then have "2 powr sqrt 2 = (2::real) powr 1" by simp
  then have "sqrt 2 = 1" using powr_inj [of 2 "sqrt 2" 1] by simp
  then show False by simp
qed

theorem kernel_contribution_witness:
  "(\<exists>g1 g2.
      apply_points_to_grid (zeros 2 2) [] [] 0 0 1 10 = Inr g1 \<and>
      apply_points_to_grid (zeros 2 2) [0] [0] 0 0 1 10 = Inr g2 \<and>
      cells g2 (1, 1) = cells g1 (1, 1) + 1 / 2) \<and>
   (\<exists>g1 g2.
      apply_points_to_grid_4 (\<lambda>lat lon meters. (2, 0)) (zeros 2 2) [] [] 0 0 1 1000 5 = Inr g1 \<and>
      apply_points_to_grid_4 (\<lambda>lat lon meters. (2, 0)) (zeros 2 2) [0] [0] 0 0 1 1000 5 = Inr g2 \<and>
      cells g2 (1, 1) = cells g1 (1, 1) + max 0 (1 - sqrt 2 / 2))"
proof -
  have le: "sqrt 2 \<le> 2" "sqrt 2 \<le> 10"
    using real_sqrt_le_mono [of 2 4] by simp_all
  from kernel_contribution [of 1 "[]" "[]" 1 "zeros 2 2" 1 0 0 0 0 0 0 "sqrt 2" 10
      "\<lambda>lat lon meters. (2, 0)" 1000 2 5]
  show ?thesis
    by (simp add: zeros_def cell_of_origin cell_distance_diag floor_sqrt_2 le)
qed

text \<open>
  The claim as stated fails for the exponential kernel: the cell diagonally next to the
  cell of a point, at distance \<open>sqrt 2\<close>, receives \<open>1 / 2\<close>, which is not one over two
  to the power of \<open>sqrt 2\<close>.
\<close>

theorem kernel_exp_not_real_power:
  "cell_distance (cell_of 0 0 1 (0, 0)) (1, 1) = sqrt 2 \<and>
   grid_value (apply_points_to_grid (zeros 2 2) [0] [0] 0 0 1 10) (1, 1) = Inr (1 / 2) \<and>
   1 / 2 powr sqrt 2 \<noteq> (1 / 2 :: real)"
proof -
  obtain g' where g': "apply_points_to_grid (zeros 2 2) [0] [0] 0 0 1 10 = Inr g'"
    "cells g' (1, 1) = cells (zeros 2 2) (1, 1) +
       (\<Sum>p\<leftarrow>zip [0] [0]. point_contrib (kernel_exp 10) (nrows (zeros 2 2)) (ncols (zeros 2 2)) 10
          (cell_of 0 0 1 p) (1, 1))"
    unfolding apply_points_to_grid_def
    using accumulate_cells [of 1 "kernel_exp 10" "zeros 2 2" "[0]" "[0]" 0 0 10] by auto
  have le: "sqrt 2 \<le> 10"
    using real_sqrt_le_mono [of 2 4] by simp
  have "cells g' (1, 1) = 1 / 2"
    unfolding g'(2)
    by (simp add: cell_of_origin point_contrib_exp cell_distance_diag floor_sqrt_2 le zeros_def)
  with g'(1) powr_sqrt_2 show ?thesis
    by (simp add: grid_value_def cell_of_origin cell_distance_diag)
qed

section \<open>Properties of the sweep\<close>












end
